theory Spec2Isabelle
  imports Complex_Main "HOL-Library.Sublist"
begin

section \<open>The smoke test of the kRPC MechJeb service (tools/mechjeb\_smoke.py)\<close>

text \<open>
  The embedding follows the source function by function. A Python string is a
  \<open>string\<close>; the ledger \<open>results: List[CheckResult]\<close>, which the source mutates with
  \<open>append\<close>, is passed in and returned extended. A call against the remote service
  either returns a value or raises an \<open>Exception\<close>; it is an \<open>outcome\<close>, and
  \<open>Raises msg\<close> carries \<open>str(ex)\<close>. The remote service has state of its own (nodes
  are made and removed), so every remote call takes the state of the remote world and
  returns the new one.
\<close>

subsection \<open>Data\<close>

text \<open>Lines 21-38: the two marker vocabularies.\<close>

definition CRASH_MARKERS :: "string list" where
  "CRASH_MARKERS =
    [''NullReferenceException'',
     ''TargetInvocationException'',
     ''MissingFieldException'',
     ''MissingMethodException'',
     ''TypeLoadException'']"

definition EXPECTED_OPERATION_MARKERS :: "string list" where
  "EXPECTED_OPERATION_MARKERS =
    [''target'',
     ''inclination'',
     ''intercept'',
     ''cannot'',
     ''not allowed'',
     ''no transfer'',
     ''no maneuver'',
     ''no maneuver parameters'']"

text \<open>Lines 41-45: the dataclass \<open>CheckResult\<close>; \<open>status\<close> is a \<open>str\<close> in the source.\<close>

record CheckResult =
  name :: string
  status :: string
  detail :: string

definition mk_result :: "string \<Rightarrow> string \<Rightarrow> string \<Rightarrow> CheckResult" where
  "mk_result n s d = \<lparr>name = n, status = s, detail = d\<rparr>"

type_synonym ledger = "CheckResult list"

text \<open>
  The Python values the probes look at: \<open>None\<close>, the booleans (\<open>ready is False\<close>),
  numbers and strings (the arguments of the ascent calls), and handles of remote objects.
\<close>

datatype pyval =
    PNone
  | PBool bool
  | PInt int
  | PFloat real
  | PStr string
  | PRef nat

datatype 'a outcome = Returns 'a | Raises string

text \<open>
  The collaborators of the probes: what the connection and the remote objects answer.
  \<open>'w\<close> is the state of the remote world. \<open>py_repr\<close> is \<open>repr\<close>.
\<close>

record 'w remote =
  krpc_version :: "'w \<Rightarrow> pyval outcome \<times> 'w"
  mech_jeb :: "'w \<Rightarrow> pyval outcome \<times> 'w"
  py_getattr :: "pyval \<Rightarrow> string \<Rightarrow> 'w \<Rightarrow> pyval outcome \<times> 'w"
  py_dir :: "pyval \<Rightarrow> 'w \<Rightarrow> string list outcome \<times> 'w"
  py_call :: "pyval \<Rightarrow> string \<Rightarrow> pyval list \<Rightarrow> 'w \<Rightarrow> pyval outcome \<times> 'w"
  op_make_nodes :: "pyval \<Rightarrow> 'w \<Rightarrow> pyval list outcome \<times> 'w"
  active_vessel :: "'w \<Rightarrow> pyval outcome \<times> 'w"
  control_nodes :: "pyval \<Rightarrow> 'w \<Rightarrow> pyval list outcome \<times> 'w"
  node_remove :: "pyval \<Rightarrow> 'w \<Rightarrow> unit outcome \<times> 'w"
  conn_close :: "'w \<Rightarrow> 'w"
  py_repr :: "pyval \<Rightarrow> string"

subsection \<open>Strings\<close>

text \<open>
  \<open>marker in msg\<close> is \<open>sublist marker msg\<close>. \<open>str.lower\<close> on the ASCII letters; the
  markers are ASCII, and no other character lowers to one of their letters in a place
  where a marker could then match.
\<close>

definition lower_char :: "char \<Rightarrow> char" where
  "lower_char c =
    (let n = (of_char c :: nat) in if 65 \<le> n \<and> n \<le> 90 then char_of (n + 32) else c)"

definition lower :: "string \<Rightarrow> string" where
  "lower s = map lower_char s"

text \<open>\<open>str(n)\<close> of a count, as the f-strings print it.\<close>

fun show_nat :: "nat \<Rightarrow> string" where
  "show_nat n =
    (if n < 10 then [char_of (48 + n)]
     else show_nat (n div 10) @ [char_of (48 + n mod 10)])"

declare show_nat.simps [simp del]

subsection \<open>Classification\<close>

text \<open>Lines 56 and 213: \<open>any(marker in msg for marker in CRASH_MARKERS)\<close>.\<close>

definition has_crash_marker :: "string \<Rightarrow> bool" where
  "has_crash_marker msg = list_ex (\<lambda>marker. sublist marker msg) CRASH_MARKERS"

text \<open>Lines 76-78.\<close>

definition is_expected_operation_error :: "string \<Rightarrow> bool" where
  "is_expected_operation_error message =
    (let lower_msg = lower message
     in list_ex (\<lambda>marker. sublist marker lower_msg) EXPECTED_OPERATION_MARKERS)"

subsection \<open>Safe Invoker and Capability Prober\<close>

text \<open>Lines 48-59. The result is the returned value, the ledger and the remote state.\<close>

definition safe_read ::
  "'w remote \<Rightarrow> ledger \<Rightarrow> string \<Rightarrow> ('w \<Rightarrow> pyval outcome \<times> 'w) \<Rightarrow> 'w
    \<Rightarrow> pyval \<times> ledger \<times> 'w" where
  "safe_read rm results nm fn w =
    (case fn w of
       (Returns v, w') \<Rightarrow> (v, results @ [mk_result nm ''PASS'' (py_repr rm v)], w')
     | (Raises msg, w') \<Rightarrow>
         (let st = (if has_crash_marker msg then ''FAIL_CRASH'' else ''FAIL'')
          in (PNone, results @ [mk_result nm st msg], w')))"

text \<open>Lines 69-73: the loop over \<open>names\<close>, after \<open>exposed\<close> has been read.\<close>

fun safe_attr_names ::
  "'w remote \<Rightarrow> ledger \<Rightarrow> string \<Rightarrow> pyval \<Rightarrow> string \<Rightarrow> string list \<Rightarrow> string list \<Rightarrow> 'w
    \<Rightarrow> pyval \<times> ledger \<times> 'w" where
  "safe_attr_names rm results owner_name obj attr exposed [] w =
    (PNone,
     results @ [mk_result (owner_name @ ''.'' @ attr) ''SKIP''
       ''attribute not exposed by this client/service build''],
     w)"
| "safe_attr_names rm results owner_name obj attr exposed (n # names) w =
    (if n \<in> set exposed
     then safe_read rm results (owner_name @ ''.'' @ n) (py_getattr rm obj n) w
     else safe_attr_names rm results owner_name obj attr exposed names w)"

text \<open>Lines 62-73; \<open>aliases or []\<close> turns \<open>None\<close> into the empty list.\<close>

definition safe_attr ::
  "'w remote \<Rightarrow> ledger \<Rightarrow> string \<Rightarrow> pyval \<Rightarrow> string \<Rightarrow> string list option \<Rightarrow> 'w
    \<Rightarrow> pyval \<times> ledger \<times> 'w" where
  "safe_attr rm results owner_name obj attr aliases w =
    (let names = [attr] @ (case aliases of None \<Rightarrow> [] | Some al \<Rightarrow> al)
     in case py_dir rm obj w of
          (Raises ex, w') \<Rightarrow>
            (PNone,
             results @ [mk_result (owner_name @ ''.'' @ attr) ''FAIL''
               (''cannot inspect attributes: '' @ ex)],
             w')
        | (Returns exposed, w') \<Rightarrow>
            safe_attr_names rm results owner_name obj attr exposed names w')"

subsection \<open>Surface Walker\<close>

text \<open>Lines 81-89. \<open>mj is None\<close> and \<open>ready is False\<close> compare with the two singletons.\<close>

definition probe_basic_service :: "'w remote \<Rightarrow> ledger \<Rightarrow> 'w \<Rightarrow> pyval \<times> ledger \<times> 'w" where
  "probe_basic_service rm results w =
    (case safe_read rm results ''krpc.version'' (krpc_version rm) w of
       (v, r1, w1) \<Rightarrow>
    (case safe_read rm r1 ''service.mech_jeb'' (mech_jeb rm) w1 of
       (mj, r2, w2) \<Rightarrow>
         if mj = PNone then (PNone, r2, w2)
         else
           (case safe_read rm r2 ''mech_jeb.api_ready'' (py_getattr rm mj ''api_ready'') w2 of
              (ready, r3, w3) \<Rightarrow>
                if ready = PBool False
                then (mj, r3 @ [mk_result ''mech_jeb.api_ready'' ''FAIL'' ''API is not ready''], w3)
                else (mj, r3, w3))))"

text \<open>Lines 93-111: the catalog, in the order of the dict.\<close>

definition modules :: "(string \<times> string list) list" where
  "modules =
    [(''airplane_autopilot'', [''enabled'']),
     (''ascent_autopilot'', [''enabled'', ''ascent_path_index'', ''autostage'']),
     (''docking_autopilot'', [''enabled'', ''speed_limit'']),
     (''landing_autopilot'', [''enabled'', ''touchdown_speed'']),
     (''rendezvous_autopilot'', [''enabled'', ''desired_distance'', ''max_phasing_orbits'']),
     (''maneuver_planner'', []),
     (''smart_ass'', [''autopilot_mode'', ''force_roll'', ''force_pitch'', ''force_yaw'']),
     (''smart_rcs'', [''auto_disable_smart_rcs'']),
     (''translatron'', [''trans_spd'']),
     (''antenna_controller'', [''auto_deploy'']),
     (''node_executor'', [''enabled'', ''autowarp'', ''lead_time'', ''tolerance'']),
     (''rcs_controller'', [''rcs_for_rotation'', ''rcs_throttle'']),
     (''staging_controller'', [''enabled'', ''autostage_limit'']),
     (''solar_panel_controller'', [''auto_deploy'']),
     (''target_controller'', [''normal_target_exists'', ''position_target_exists'', ''can_align'']),
     (''thrust_controller'',
        [''limit_dynamic_pressure'', ''limit_acceleration'', ''limit_throttle'']),
     (''warp_controller'',
        [''enabled'', ''warp_paused'', ''activate_sas_on_warp'', ''use_quick_warp''])]"

text \<open>Lines 117-118: the inner loop over the members of one module.\<close>

fun probe_props ::
  "'w remote \<Rightarrow> ledger \<Rightarrow> string \<Rightarrow> pyval \<Rightarrow> string list \<Rightarrow> 'w \<Rightarrow> ledger \<times> 'w" where
  "probe_props rm results module_name modl [] w = (results, w)"
| "probe_props rm results module_name modl (prop # props) w =
    (case safe_attr rm results module_name modl prop None w of
       (v, r1, w1) \<Rightarrow> probe_props rm r1 module_name modl props w1)"

text \<open>Lines 114-118: the body of the loop over the catalog.\<close>

definition probe_module ::
  "'w remote \<Rightarrow> pyval \<Rightarrow> ledger \<Rightarrow> string \<times> string list \<Rightarrow> 'w \<Rightarrow> ledger \<times> 'w" where
  "probe_module rm mj results entry w =
    (case entry of (module_name, props) \<Rightarrow>
       (case safe_read rm results (''module.'' @ module_name) (py_getattr rm mj module_name) w of
          (modl, r1, w1) \<Rightarrow>
            if modl = PNone then (r1, w1)
            else probe_props rm r1 module_name modl props w1))"

fun probe_modules_loop ::
  "'w remote \<Rightarrow> pyval \<Rightarrow> ledger \<Rightarrow> (string \<times> string list) list \<Rightarrow> 'w \<Rightarrow> ledger \<times> 'w" where
  "probe_modules_loop rm mj results [] w = (results, w)"
| "probe_modules_loop rm mj results (entry # entries) w =
    (case probe_module rm mj results entry w of
       (r1, w1) \<Rightarrow> probe_modules_loop rm mj r1 entries w1)"

text \<open>Lines 92-118.\<close>

definition probe_modules :: "'w remote \<Rightarrow> pyval \<Rightarrow> ledger \<Rightarrow> 'w \<Rightarrow> ledger \<times> 'w" where
  "probe_modules rm mj results w = probe_modules_loop rm mj results modules w"

text \<open>Lines 126-139.\<close>

definition checks :: "(string \<times> string \<times> pyval list) list" where
  "checks =
    [(''desired_orbit_altitude'', ''try_set_desired_orbit_altitude'', [PFloat 100]),
     (''limit_ao_a'', ''try_set_limit_ao_a'', [PBool True]),
     (''limit_ao_a'', ''try_get_limit_ao_a'', []),
     (''max_ao_a'', ''try_set_max_ao_a'', [PFloat 5]),
     (''max_ao_a'', ''try_get_max_ao_a'', []),
     (''corrective_steering'', ''try_set_corrective_steering'', [PBool True]),
     (''corrective_steering'', ''try_get_corrective_steering'', []),
     (''corrective_steering_gain'', ''try_set_corrective_steering_gain'', [PFloat (6 / 10)]),
     (''corrective_steering_gain'', ''try_get_corrective_steering_gain'', []),
     (''force_roll'', ''try_set_force_roll'', [PBool False]),
     (''skip_circularization'', ''try_set_skip_circularization'', [PBool False]),
     (''skip_circularization'', ''try_get_skip_circularization'', [])]"

text \<open>Lines 142-156: the body of the loop over \<open>checks\<close>.\<close>

definition probe_check ::
  "'w remote \<Rightarrow> pyval \<Rightarrow> ledger \<Rightarrow> string \<times> string \<times> pyval list \<Rightarrow> 'w \<Rightarrow> ledger \<times> 'w" where
  "probe_check rm ascent results chk w =
    (case chk of (prop_name, method_name, args) \<Rightarrow>
    (case safe_read rm results (''ascent.is_property_available('' @ prop_name @ '')'')
            (py_call rm ascent ''is_property_available'' [PStr prop_name]) w of
       (v1, r1, w1) \<Rightarrow>
    (case safe_read rm r1 (''ascent.get_unavailable_reason('' @ prop_name @ '')'')
            (py_call rm ascent ''get_unavailable_reason'' [PStr prop_name]) w1 of
       (v2, r2, w2) \<Rightarrow>
    (case safe_read rm r2 (''ascent.'' @ method_name) (py_call rm ascent method_name args) w2 of
       (v3, r3, w3) \<Rightarrow> (r3, w3)))))"

fun probe_checks_loop ::
  "'w remote \<Rightarrow> pyval \<Rightarrow> ledger \<Rightarrow> (string \<times> string \<times> pyval list) list \<Rightarrow> 'w
    \<Rightarrow> ledger \<times> 'w" where
  "probe_checks_loop rm ascent results [] w = (results, w)"
| "probe_checks_loop rm ascent results (chk # chks) w =
    (case probe_check rm ascent results chk w of
       (r1, w1) \<Rightarrow> probe_checks_loop rm ascent r1 chks w1)"

text \<open>Lines 121-156.\<close>

definition probe_ascent_compat :: "'w remote \<Rightarrow> pyval \<Rightarrow> ledger \<Rightarrow> 'w \<Rightarrow> ledger \<times> 'w" where
  "probe_ascent_compat rm mj results w =
    (case safe_read rm results ''module.ascent_autopilot''
            (py_getattr rm mj ''ascent_autopilot'') w of
       (ascent, r1, w1) \<Rightarrow>
         if ascent = PNone then (r1, w1)
         else probe_checks_loop rm ascent r1 checks w1)"

text \<open>Lines 162-164: the loop that removes the nodes and counts them.\<close>

fun remove_nodes :: "'w remote \<Rightarrow> pyval list \<Rightarrow> nat \<Rightarrow> 'w \<Rightarrow> nat outcome \<times> 'w" where
  "remove_nodes rm [] removed w = (Returns removed, w)"
| "remove_nodes rm (node # nodes) removed w =
    (case node_remove rm node w of
       (Raises ex, w1) \<Rightarrow> (Raises ex, w1)
     | (Returns u, w1) \<Rightarrow> remove_nodes rm nodes (removed + 1) w1)"

text \<open>
  Lines 159-165. Nothing is caught here: a raise of the vessel read, of the node list
  or of a removal leaves \<open>clear_nodes\<close> before the append.
\<close>

definition clear_nodes :: "'w remote \<Rightarrow> ledger \<Rightarrow> 'w \<Rightarrow> unit outcome \<times> ledger \<times> 'w" where
  "clear_nodes rm results w =
    (case active_vessel rm w of
       (Raises ex, w1) \<Rightarrow> (Raises ex, results, w1)
     | (Returns vessel, w1) \<Rightarrow>
    (case control_nodes rm vessel w1 of
       (Raises ex, w2) \<Rightarrow> (Raises ex, results, w2)
     | (Returns nodes, w2) \<Rightarrow>
    (case remove_nodes rm nodes 0 w2 of
       (Raises ex, w3) \<Rightarrow> (Raises ex, results, w3)
     | (Returns removed, w3) \<Rightarrow>
         (Returns (),
          results @ [mk_result ''space_center.clear_nodes'' ''PASS''
            (''removed='' @ show_nat removed)],
          w3))))"

text \<open>Lines 173-190.\<close>

definition operations :: "string list" where
  "operations =
    [''operation_apoapsis'',
     ''operation_circularize'',
     ''operation_course_correction'',
     ''operation_ellipticize'',
     ''operation_inclination'',
     ''operation_interplanetary_transfer'',
     ''operation_kill_rel_vel'',
     ''operation_lambert'',
     ''operation_lan'',
     ''operation_longitude'',
     ''operation_moon_return'',
     ''operation_periapsis'',
     ''operation_plane'',
     ''operation_resonant_orbit'',
     ''operation_semi_major'',
     ''operation_transfer'']"

text \<open>Lines 211-218: the handler of the node-generation \<open>try\<close>.\<close>

definition make_nodes_except :: "ledger \<Rightarrow> string \<Rightarrow> string \<Rightarrow> ledger" where
  "make_nodes_except results op_name msg =
    (if has_crash_marker msg
     then results @ [mk_result (''op.'' @ op_name @ ''.make_nodes'') ''FAIL_CRASH'' msg]
     else if is_expected_operation_error msg
     then results @ [mk_result (''op.'' @ op_name @ ''.make_nodes'') ''EXPECTED_FAIL'' msg]
     else results @ [mk_result (''op.'' @ op_name @ ''.make_nodes'') ''FAIL'' msg])"

text \<open>
  Lines 206-218: the \<open>try\<close> holds the call, the count, the append and \<open>clear_nodes\<close>,
  so the handler also receives what \<open>clear_nodes\<close> raises.
\<close>

definition probe_make_nodes ::
  "'w remote \<Rightarrow> ledger \<Rightarrow> string \<Rightarrow> pyval \<Rightarrow> 'w \<Rightarrow> ledger \<times> 'w" where
  "probe_make_nodes rm results op_name op w =
    (case op_make_nodes rm op w of
       (Raises msg, w1) \<Rightarrow> (make_nodes_except results op_name msg, w1)
     | (Returns nodes, w1) \<Rightarrow>
         (let count = length nodes;
              r1 = results @ [mk_result (''op.'' @ op_name @ ''.make_nodes'') ''PASS''
                     (''nodes='' @ show_nat count)]
          in case clear_nodes rm r1 w1 of
               (Raises msg, r2, w2) \<Rightarrow> (make_nodes_except r2 op_name msg, w2)
             | (Returns u, r2, w2) \<Rightarrow> (r2, w2)))"

text \<open>Lines 193-218: the body of the loop over \<open>operations\<close>.\<close>

definition probe_operation ::
  "'w remote \<Rightarrow> pyval \<Rightarrow> ledger \<Rightarrow> bool \<Rightarrow> string \<Rightarrow> 'w \<Rightarrow> ledger \<times> 'w" where
  "probe_operation rm planner results make_nodes op_name w =
    (case safe_read rm results (''op.'' @ op_name) (py_getattr rm planner op_name) w of
       (op, r1, w1) \<Rightarrow>
         if op = PNone then (r1, w1)
         else
    (case safe_read rm r1 (''op.'' @ op_name @ ''.error_message'')
            (py_getattr rm op ''error_message'') w1 of
       (v, r2, w2) \<Rightarrow>
    (case safe_attr rm r2 (''op.'' @ op_name) op ''time_selector'' None w2 of
       (ts, r3, w3) \<Rightarrow>
    (case (if ts \<noteq> PNone
           then (case safe_attr rm r3 (''op.'' @ op_name @ ''.time_selector'') ts
                        ''time_reference'' (Some [''current_time_reference'']) w3 of
                   (v1, r4, w4) \<Rightarrow>
                 (case safe_attr rm r4 (''op.'' @ op_name @ ''.time_selector'') ts
                        ''allowed_time_references'' None w4 of
                   (v2, r5, w5) \<Rightarrow> (r5, w5)))
           else (r3, w3)) of
       (r6, w6) \<Rightarrow>
         if \<not> make_nodes then (r6, w6)
         else probe_make_nodes rm r6 op_name op w6))))"

fun probe_operations_loop ::
  "'w remote \<Rightarrow> pyval \<Rightarrow> ledger \<Rightarrow> bool \<Rightarrow> string list \<Rightarrow> 'w \<Rightarrow> ledger \<times> 'w" where
  "probe_operations_loop rm planner results make_nodes [] w = (results, w)"
| "probe_operations_loop rm planner results make_nodes (op_name # ops) w =
    (case probe_operation rm planner results make_nodes op_name w of
       (r1, w1) \<Rightarrow> probe_operations_loop rm planner r1 make_nodes ops w1)"

text \<open>Lines 168-218.\<close>

definition probe_operations ::
  "'w remote \<Rightarrow> pyval \<Rightarrow> ledger \<Rightarrow> bool \<Rightarrow> 'w \<Rightarrow> ledger \<times> 'w" where
  "probe_operations rm mj results make_nodes w =
    (case safe_read rm results ''maneuver_planner'' (py_getattr rm mj ''maneuver_planner'') w of
       (planner, r1, w1) \<Rightarrow>
         if planner = PNone then (r1, w1)
         else probe_operations_loop rm planner r1 make_nodes operations w1)"

subsection \<open>Reporter\<close>

text \<open>Lines 221-231: the exit code and the lines printed.\<close>

definition report_line :: "CheckResult \<Rightarrow> string" where
  "report_line r = ''['' @ status r @ ''] '' @ name r @ '': '' @ detail r"

definition summarize :: "ledger \<Rightarrow> int \<times> string list" where
  "summarize results =
    (let fail = filter (\<lambda>r. prefix ''FAIL'' (status r)) results;
         expected = filter (\<lambda>r. status r = ''EXPECTED_FAIL'') results;
         skipped = filter (\<lambda>r. status r = ''SKIP'') results
     in (if fail \<noteq> [] then 1 else 0,
         map report_line results @
         ['''',
          ''Summary: total='' @ show_nat (length results)
            @ '' fail='' @ show_nat (length fail)
            @ '' expected_fail='' @ show_nat (length expected)
            @ '' skipped='' @ show_nat (length skipped)]))"

subsection \<open>The run\<close>

text \<open>
  What a run leaves: the exit code, the lines printed on standard output, and the remote
  state after \<open>conn.close()\<close> (\<open>None\<close> when no connection was made). The traceback
  of line 264 goes to standard error and is not part of \<open>printed\<close>.
\<close>

record 'w run_end =
  exit_code :: int
  printed :: "string list"
  world_end :: "'w option"

text \<open>Lines 257-261: the block under \<open>try\<close>. No probe function lets a raise through.\<close>

definition probes :: "'w remote \<Rightarrow> bool \<Rightarrow> ledger \<Rightarrow> 'w \<Rightarrow> unit outcome \<times> ledger \<times> 'w" where
  "probes rm make_nodes results w =
    (case probe_basic_service rm results w of
       (mj, r1, w1) \<Rightarrow>
         if mj \<noteq> PNone
         then
           (case probe_modules rm mj r1 w1 of
              (r2, w2) \<Rightarrow>
           (case probe_ascent_compat rm mj r2 w2 of
              (r3, w3) \<Rightarrow>
           (case probe_operations rm mj r3 make_nodes w3 of
              (r4, w4) \<Rightarrow> (Returns (), r4, w4))))
         else (Returns (), r1, w1))"

text \<open>
  Lines 243 and 256-269: the ledger starts empty, the block under \<open>try\<close> runs, the
  connection is closed on every path, and the report is made by \<open>summarize\<close> on the
  path that did not raise. The block is a parameter, so that the handler of lines
  262-265 can be looked at with a block that raises after some results were collected.
\<close>

definition main_try ::
  "'w remote \<Rightarrow> (ledger \<Rightarrow> 'w \<Rightarrow> unit outcome \<times> ledger \<times> 'w) \<Rightarrow> 'w \<Rightarrow> 'w run_end" where
  "main_try rm body w =
    (case body [] w of
       (Raises ex, results, w1) \<Rightarrow>
         \<lparr>exit_code = 3,
          printed = [''[FAIL] unhandled exception during smoke test''],
          world_end = Some (conn_close rm w1)\<rparr>
     | (Returns u, results, w1) \<Rightarrow>
         (case summarize results of
            (code, out) \<Rightarrow>
              \<lparr>exit_code = code, printed = out, world_end = Some (conn_close rm w1)\<rparr>))"

text \<open>Lines 234-269; \<open>connect\<close> is what \<open>krpc.connect\<close> did.\<close>

definition main :: "'w remote \<Rightarrow> 'w outcome \<Rightarrow> bool \<Rightarrow> 'w run_end" where
  "main rm connect make_nodes =
    (case connect of
       Raises ex \<Rightarrow>
         \<lparr>exit_code = 2, printed = [''[FAIL] connect: '' @ ex], world_end = None\<rparr>
     | Returns w \<Rightarrow> main_try rm (probes rm make_nodes) w)"

subsection \<open>Remote services for the scenarios\<close>

text \<open>
  Concrete collaborators on which the properties below are evaluated. The remote state
  is the number of maneuver nodes of the active vessel.
\<close>

definition scenario_repr :: "pyval \<Rightarrow> string" where
  "scenario_repr v =
    (case v of
       PNone \<Rightarrow> ''None''
     | PBool b \<Rightarrow> (if b then ''True'' else ''False'')
     | PStr s \<Rightarrow> [CHR 0x27] @ s @ [CHR 0x27]
     | _ \<Rightarrow> ''<remote object>'')"

definition base_remote :: "nat remote" where
  "base_remote =
    \<lparr>krpc_version = (\<lambda>w. (Returns (PStr ''0.5.4''), w)),
     mech_jeb = (\<lambda>w. (Returns (PRef 1), w)),
     py_getattr = (\<lambda>obj attr w. (Raises (''AttributeError: '' @ attr), w)),
     py_dir = (\<lambda>obj w. (Returns [], w)),
     py_call = (\<lambda>obj meth args w. (Raises (''AttributeError: '' @ meth), w)),
     op_make_nodes = (\<lambda>obj w. (Raises ''No transfer window currently available'', w)),
     active_vessel = (\<lambda>w. (Returns (PRef 2), w)),
     control_nodes = (\<lambda>vessel w. (Returns (map PRef [10 ..< 10 + w]), w)),
     node_remove = (\<lambda>node w. (Returns (), w - 1)),
     conn_close = (\<lambda>w. w),
     py_repr = scenario_repr\<rparr>"

definition raising :: "string \<Rightarrow> nat \<Rightarrow> pyval outcome \<times> nat" where
  "raising msg w = (Raises msg, w)"

definition raising_nodes :: "string \<Rightarrow> nat \<Rightarrow> pyval list outcome \<times> nat" where
  "raising_nodes msg w = (Raises msg, w)"

definition returning :: "pyval \<Rightarrow> nat \<Rightarrow> pyval outcome \<times> nat" where
  "returning v w = (Returns v, w)"

text \<open>A time selector that exposes the alias of \<open>time_reference\<close> only.\<close>

definition alias_remote :: "nat remote" where
  "alias_remote =
    base_remote
      \<lparr>py_getattr := (\<lambda>obj attr w. (Returns (PStr ''UT''), w)),
       py_dir := (\<lambda>obj w. (Returns [''allowed_time_references'', ''current_time_reference''], w))\<rparr>"

text \<open>A handle whose member set cannot be listed.\<close>

definition broken_remote :: "nat remote" where
  "broken_remote = base_remote\<lparr>py_dir := (\<lambda>obj w. (Raises ''connection reset'', w))\<rparr>"

text \<open>A service whose reads succeed and give \<open>None\<close>.\<close>

definition none_remote :: "nat remote" where
  "none_remote =
    base_remote
      \<lparr>mech_jeb := (\<lambda>w. (Returns PNone, w)),
       py_getattr := (\<lambda>obj attr w. (Returns PNone, w))\<rparr>"


text \<open>An operation that makes one node, on a vessel whose nodes cannot be removed.\<close>

definition cleanup_fails_remote :: "nat remote" where
  "cleanup_fails_remote =
    base_remote
      \<lparr>op_make_nodes := (\<lambda>obj w. (Returns [PRef (10 + w)], w + 1)),
       node_remove := (\<lambda>node w. (Raises ''cannot remove node'', w))\<rparr>"

text \<open>The same operation on a vessel whose nodes can be removed.\<close>

definition planning_remote :: "nat remote" where
  "planning_remote = base_remote\<lparr>op_make_nodes := (\<lambda>obj w. (Returns [PRef (10 + w)], w + 1))\<rparr>"

text \<open>A block under \<open>try\<close> that raises after one result was collected.\<close>

definition escaping_body :: "ledger \<Rightarrow> nat \<Rightarrow> unit outcome \<times> ledger \<times> nat" where
  "escaping_body results w =
    (Raises ''KeyError'', results @ [mk_result ''krpc.version'' ''PASS'' ''1''], w)"

text \<open>The status strings that the source writes into a \<open>CheckResult\<close>.\<close>

definition status_known :: "CheckResult \<Rightarrow> bool" where
  "status_known r =
    (status r \<in> {''PASS'', ''FAIL'', ''FAIL_CRASH'', ''EXPECTED_FAIL'', ''SKIP''})"

section \<open>Properties\<close>

subsection \<open>Facts about the classification\<close>

lemma has_crash_markerI:
  "marker \<in> set CRASH_MARKERS \<Longrightarrow> sublist marker msg \<Longrightarrow> has_crash_marker msg"
  by (auto simp: has_crash_marker_def list_ex_iff)

lemma no_crash_markerI:
  "\<forall>marker \<in> set CRASH_MARKERS. \<not> sublist marker msg \<Longrightarrow> \<not> has_crash_marker msg"
  by (auto simp: has_crash_marker_def list_ex_iff)

lemma is_expected_operation_errorI:
  "marker \<in> set EXPECTED_OPERATION_MARKERS \<Longrightarrow> sublist marker (lower msg)
    \<Longrightarrow> is_expected_operation_error msg"
  by (auto simp: is_expected_operation_error_def list_ex_iff)

lemma make_nodes_raises:
  "op_make_nodes rm op w = (Raises msg, w')
    \<Longrightarrow> probe_make_nodes rm results op_name op w = (make_nodes_except results op_name msg, w')"
  by (simp add: probe_make_nodes_def)

subsection \<open>Crash markers win\<close>

text \<open>
  C1. A failure message that contains one of the five crash markers is recorded as
  \<open>FAIL_CRASH\<close>, by \<open>safe_read\<close> and at the node-generation call, whatever else the
  message contains; nothing is assumed about the expected-operation markers.
\<close>

theorem crash_marker_precedence:
  assumes "marker \<in> set CRASH_MARKERS" and "msg = ps @ marker @ ss"
  shows "(fn w = (Raises msg, w') \<longrightarrow>
            safe_read rm results nm fn w
              = (PNone, results @ [mk_result nm ''FAIL_CRASH'' msg], w'))
       \<and> (op_make_nodes rm op w = (Raises msg, w') \<longrightarrow>
            probe_make_nodes rm results op_name op w
              = (results @ [mk_result (''op.'' @ op_name @ ''.make_nodes'') ''FAIL_CRASH'' msg],
                 w'))"
proof -
  from assms have "sublist marker msg"
    by (auto simp: sublist_def)
  with assms(1) have crash: "has_crash_marker msg"
    by (rule has_crash_markerI)
  then show ?thesis
    by (simp add: safe_read_def make_nodes_raises make_nodes_except_def)
qed

text \<open>The message of the witness holds a crash marker and two expected-operation markers.\<close>

theorem crash_marker_precedence_witness:
  "''MissingMethodException'' \<in> set CRASH_MARKERS
   \<and> is_expected_operation_error ''MissingMethodException: cannot find target''
   \<and> safe_read
         (base_remote\<lparr>op_make_nodes := \<lambda>obj. raising_nodes ''MissingMethodException: cannot find target''\<rparr>)
         [] ''op.x'' (raising ''MissingMethodException: cannot find target'') 0
       = (PNone,
          [mk_result ''op.x'' ''FAIL_CRASH'' ''MissingMethodException: cannot find target''], 0)
   \<and> probe_make_nodes
         (base_remote\<lparr>op_make_nodes := \<lambda>obj. raising_nodes ''MissingMethodException: cannot find target''\<rparr>)
         [] ''x'' (PRef 5) 0
       = ([mk_result ''op.x.make_nodes'' ''FAIL_CRASH''
             ''MissingMethodException: cannot find target''], 0)"
proof -
  let ?msg = "''MissingMethodException: cannot find target''"
  let ?rm = "base_remote\<lparr>op_make_nodes := \<lambda>obj. raising_nodes ?msg\<rparr>"
  have m: "''MissingMethodException'' \<in> set CRASH_MARKERS"
    by (simp add: CRASH_MARKERS_def)
  have e: "is_expected_operation_error ?msg"
    by code_simp
  have s: "?msg = [] @ ''MissingMethodException'' @ '': cannot find target''"
    by simp
  have r: "raising ?msg 0 = (Raises ?msg, 0)"
    by (simp add: raising_def)
  have n: "op_make_nodes ?rm (PRef 5) 0 = (Raises ?msg, 0)"
    by (simp add: raising_nodes_def)
  from crash_marker_precedence [OF m s, where fn = "raising ?msg" and w = 0 and w' = 0
      and rm = ?rm and results = "[]" and nm = "''op.x''" and op = "PRef 5"
      and op_name = "''x''"] r n m e
  show ?thesis by (simp add: safe_read_def)
qed

subsection \<open>The exit code of the report\<close>

lemma fail_prefix_valid:
  "s \<in> {''PASS'', ''FAIL'', ''FAIL_CRASH'', ''EXPECTED_FAIL'', ''SKIP''}
    \<Longrightarrow> prefix ''FAIL'' s \<longleftrightarrow> s = ''FAIL'' \<or> s = ''FAIL_CRASH''"
  by auto

lemma summarize_code:
  "fst (summarize results) = (if \<exists>r \<in> set results. prefix ''FAIL'' (status r) then 1 else 0)"
  by (auto simp: summarize_def Let_def filter_empty_conv)

text \<open>
  C2. For a ledger whose statuses are among the five of the enumeration, \<open>summarize\<close>
  returns 1 when some result is \<open>FAIL\<close> or \<open>FAIL_CRASH\<close> and 0 otherwise; taking
  an \<open>EXPECTED_FAIL\<close> or a \<open>SKIP\<close> result out of the ledger leaves the exit code as
  it was.
\<close>

theorem summarize_exit_code:
  assumes "\<forall>r \<in> set results.
             status r \<in> {''PASS'', ''FAIL'', ''FAIL_CRASH'', ''EXPECTED_FAIL'', ''SKIP''}"
  shows "fst (summarize results)
           = (if \<exists>r \<in> set results. status r = ''FAIL'' \<or> status r = ''FAIL_CRASH''
              then 1 else 0)
       \<and> (\<forall>xs r ys. results = xs @ r # ys
             \<longrightarrow> status r = ''EXPECTED_FAIL'' \<or> status r = ''SKIP''
             \<longrightarrow> fst (summarize (xs @ ys)) = fst (summarize results))"
proof
  have "(\<exists>r \<in> set results. prefix ''FAIL'' (status r))
          \<longleftrightarrow> (\<exists>r \<in> set results. status r = ''FAIL'' \<or> status r = ''FAIL_CRASH'')"
    using assms fail_prefix_valid by blast
  then show "fst (summarize results)
           = (if \<exists>r \<in> set results. status r = ''FAIL'' \<or> status r = ''FAIL_CRASH''
              then 1 else 0)"
    by (simp only: summarize_code)
next
  show "\<forall>xs r ys. results = xs @ r # ys
             \<longrightarrow> status r = ''EXPECTED_FAIL'' \<or> status r = ''SKIP''
             \<longrightarrow> fst (summarize (xs @ ys)) = fst (summarize results)"
  proof (intro allI impI)
    fix xs r ys
    assume split: "results = xs @ r # ys"
      and soft: "status r = ''EXPECTED_FAIL'' \<or> status r = ''SKIP''"
    from soft have "\<not> prefix ''FAIL'' (status r)"
      by auto
    with split show "fst (summarize (xs @ ys)) = fst (summarize results)"
      by (auto simp: summarize_code)
  qed
qed

theorem summarize_exit_code_witness:
  "fst (summarize [mk_result ''a'' ''PASS'' ''1'', mk_result ''b'' ''SKIP'' ''-'',
                   mk_result ''c'' ''EXPECTED_FAIL'' ''no target'']) = 0
   \<and> fst (summarize [mk_result ''a'' ''PASS'' ''1'', mk_result ''b'' ''SKIP'' ''-'',
                     mk_result ''c'' ''FAIL_CRASH'' ''TypeLoadException'']) = 1
   \<and> fst (summarize [mk_result ''a'' ''PASS'' ''1'',
                     mk_result ''c'' ''FAIL_CRASH'' ''TypeLoadException''])
       = fst (summarize [mk_result ''a'' ''PASS'' ''1'', mk_result ''b'' ''SKIP'' ''-'',
                     mk_result ''c'' ''FAIL_CRASH'' ''TypeLoadException''])"
proof -
  let ?a = "mk_result ''a'' ''PASS'' ''1''"
  let ?b = "mk_result ''b'' ''SKIP'' ''-''"
  let ?c = "mk_result ''c'' ''EXPECTED_FAIL'' ''no target''"
  let ?d = "mk_result ''c'' ''FAIL_CRASH'' ''TypeLoadException''"
  have v1: "\<forall>r \<in> set [?a, ?b, ?c].
              status r \<in> {''PASS'', ''FAIL'', ''FAIL_CRASH'', ''EXPECTED_FAIL'', ''SKIP''}"
    by (simp add: mk_result_def)
  have v2: "\<forall>r \<in> set [?a, ?b, ?d].
              status r \<in> {''PASS'', ''FAIL'', ''FAIL_CRASH'', ''EXPECTED_FAIL'', ''SKIP''}"
    by (simp add: mk_result_def)
  have s: "[?a, ?b, ?d] = [?a] @ ?b # [?d]" "status ?b = ''SKIP''"
    by (simp_all add: mk_result_def)
  from summarize_exit_code [OF v1] have one: "fst (summarize [?a, ?b, ?c]) = 0"
    by (simp add: mk_result_def)
  from summarize_exit_code [OF v2] have two: "fst (summarize [?a, ?b, ?d]) = 1"
    by (simp add: mk_result_def)
  from summarize_exit_code [OF v2] s
  have three: "fst (summarize ([?a] @ [?d])) = fst (summarize [?a, ?b, ?d])"
    by blast
  from one two three show ?thesis by simp
qed

subsection \<open>Expected-operation markers\<close>

text \<open>
  C3. A failure message without crash marker whose lower-cased text contains an
  expected-operation marker is recorded as \<open>EXPECTED_FAIL\<close> when the node-generation
  call raised it, and as \<open>FAIL\<close> when a call under \<open>safe_read\<close> raised it; no
  result appended by \<open>safe_read\<close> has the status \<open>EXPECTED_FAIL\<close>.
\<close>

theorem expected_marker_classification:
  assumes "\<forall>m \<in> set CRASH_MARKERS. \<not> sublist m msg"
      and "marker \<in> set EXPECTED_OPERATION_MARKERS"
      and "sublist marker (lower msg)"
  shows "(op_make_nodes rm op w = (Raises msg, w') \<longrightarrow>
            probe_make_nodes rm results op_name op w
              = (results
                   @ [mk_result (''op.'' @ op_name @ ''.make_nodes'') ''EXPECTED_FAIL'' msg],
                 w'))
       \<and> (fn w = (Raises msg, w') \<longrightarrow>
            safe_read rm results nm fn w = (PNone, results @ [mk_result nm ''FAIL'' msg], w'))
       \<and> (\<forall>gn v r u. safe_read rm results nm gn w = (v, r, u)
            \<longrightarrow> status (last r) \<noteq> ''EXPECTED_FAIL'')"
proof -
  from assms(1) have nocrash: "\<not> has_crash_marker msg"
    by (rule no_crash_markerI)
  from assms(2,3) have expected: "is_expected_operation_error msg"
    by (rule is_expected_operation_errorI)
  have never: "\<forall>gn v r u. safe_read rm results nm gn w = (v, r, u)
            \<longrightarrow> status (last r) \<noteq> ''EXPECTED_FAIL''"
    by (auto simp: safe_read_def mk_result_def split: prod.splits outcome.splits)
  from nocrash expected never show ?thesis
    by (simp add: safe_read_def make_nodes_raises make_nodes_except_def)
qed

theorem expected_marker_classification_witness:
  "\<not> has_crash_marker ''No transfer window currently available''
   \<and> ''no transfer'' \<in> set EXPECTED_OPERATION_MARKERS
   \<and> sublist ''no transfer'' (lower ''No transfer window currently available'')
   \<and> probe_make_nodes base_remote [] ''operation_transfer'' (PRef 5) 0
       = ([mk_result ''op.operation_transfer.make_nodes'' ''EXPECTED_FAIL''
             ''No transfer window currently available''], 0)
   \<and> safe_read base_remote [] ''op.operation_transfer''
         (raising ''No transfer window currently available'') 0
       = (PNone,
          [mk_result ''op.operation_transfer'' ''FAIL''
             ''No transfer window currently available''], 0)"
proof -
  let ?msg = "''No transfer window currently available''"
  have c: "\<forall>m \<in> set CRASH_MARKERS. \<not> sublist m ?msg"
    by code_simp
  have m: "''no transfer'' \<in> set EXPECTED_OPERATION_MARKERS"
    by (simp add: EXPECTED_OPERATION_MARKERS_def)
  have l: "sublist ''no transfer'' (lower ?msg)"
    by code_simp
  have n: "op_make_nodes base_remote (PRef 5) 0 = (Raises ?msg, 0)"
    by (simp add: base_remote_def)
  have r: "raising ?msg 0 = (Raises ?msg, 0)"
    by (simp add: raising_def)
  from expected_marker_classification [OF c m l, where rm = base_remote and op = "PRef 5"
      and w = 0 and w' = 0 and results = "[]" and op_name = "''operation_transfer''"
      and fn = "raising ?msg" and nm = "''op.operation_transfer''"] n r c m l
  show ?thesis by (simp add: has_crash_marker_def list_ex_iff)
qed

subsection \<open>The contract of the Safe Invoker\<close>



subsection \<open>The Capability Prober\<close>

lemma safe_attr_names_first:
  "names = pre @ m # post \<Longrightarrow> m \<in> set exposed \<Longrightarrow> \<forall>n \<in> set pre. n \<notin> set exposed
    \<Longrightarrow> safe_attr_names rm results owner_name obj attr exposed names w
        = safe_read rm results (owner_name @ ''.'' @ m) (py_getattr rm obj m) w"
  by (induction pre arbitrary: names) auto

lemma safe_attr_names_none:
  "\<forall>n \<in> set names. n \<notin> set exposed
    \<Longrightarrow> safe_attr_names rm results owner_name obj attr exposed names w
        = (PNone,
           results @ [mk_result (owner_name @ ''.'' @ attr) ''SKIP''
             ''attribute not exposed by this client/service build''],
           w)"
  by (induction names) auto

text \<open>
  C8. \<open>safe_attr\<close> probes the first name of \<open>[attr] + aliases\<close> that the object
  exposes, through \<open>safe_read\<close> under the identifier \<open>owner.matched\<close>; when no
  listed name is exposed it appends the one result \<open>owner.attr\<close> with status
  \<open>SKIP\<close> and returns \<open>None\<close>; when listing the members raises it appends the one
  result \<open>owner.attr\<close> with status \<open>FAIL\<close> and the detail
  \<open>cannot inspect attributes: ...\<close>.
\<close>

theorem safe_attr_resolution:
  "(\<forall>exposed w1 pre m post.
      py_dir rm obj w = (Returns exposed, w1)
      \<longrightarrow> attr # (case aliases of None \<Rightarrow> [] | Some al \<Rightarrow> al) = pre @ m # post
      \<longrightarrow> m \<in> set exposed
      \<longrightarrow> (\<forall>n \<in> set pre. n \<notin> set exposed)
      \<longrightarrow> safe_attr rm results owner_name obj attr aliases w
            = safe_read rm results (owner_name @ ''.'' @ m) (py_getattr rm obj m) w1
          \<and> (\<exists>v st d w2. safe_attr rm results owner_name obj attr aliases w
                = (v, results @ [mk_result (owner_name @ ''.'' @ m) st d], w2)))
   \<and> (\<forall>exposed w1.
      py_dir rm obj w = (Returns exposed, w1)
      \<longrightarrow> (\<forall>n \<in> set (attr # (case aliases of None \<Rightarrow> [] | Some al \<Rightarrow> al)). n \<notin> set exposed)
      \<longrightarrow> safe_attr rm results owner_name obj attr aliases w
            = (PNone,
               results @ [mk_result (owner_name @ ''.'' @ attr) ''SKIP''
                 ''attribute not exposed by this client/service build''],
               w1))
   \<and> (\<forall>ex w1.
      py_dir rm obj w = (Raises ex, w1)
      \<longrightarrow> safe_attr rm results owner_name obj attr aliases w
            = (PNone,
               results @ [mk_result (owner_name @ ''.'' @ attr) ''FAIL''
                 (''cannot inspect attributes: '' @ ex)],
               w1))"
proof (intro conjI allI impI)
  fix exposed w1 pre m post
  assume d: "py_dir rm obj w = (Returns exposed, w1)"
    and n: "attr # (case aliases of None \<Rightarrow> [] | Some al \<Rightarrow> al) = pre @ m # post"
    and m: "m \<in> set exposed"
    and p: "\<forall>n \<in> set pre. n \<notin> set exposed"
  from d have "safe_attr rm results owner_name obj attr aliases w
      = safe_attr_names rm results owner_name obj attr exposed
          (attr # (case aliases of None \<Rightarrow> [] | Some al \<Rightarrow> al)) w1"
    by (simp add: safe_attr_def)
  also from n m p have "\<dots> = safe_read rm results (owner_name @ ''.'' @ m) (py_getattr rm obj m) w1"
    by (rule safe_attr_names_first)
  finally show eq: "safe_attr rm results owner_name obj attr aliases w
      = safe_read rm results (owner_name @ ''.'' @ m) (py_getattr rm obj m) w1" .
  show "\<exists>v st d w2. safe_attr rm results owner_name obj attr aliases w
      = (v, results @ [mk_result (owner_name @ ''.'' @ m) st d], w2)"
    unfolding eq by (auto simp: safe_read_def split: prod.splits outcome.splits)
next
  fix exposed w1
  assume d: "py_dir rm obj w = (Returns exposed, w1)"
    and none: "\<forall>n \<in> set (attr # (case aliases of None \<Rightarrow> [] | Some al \<Rightarrow> al)). n \<notin> set exposed"
  from d have "safe_attr rm results owner_name obj attr aliases w
      = safe_attr_names rm results owner_name obj attr exposed
          (attr # (case aliases of None \<Rightarrow> [] | Some al \<Rightarrow> al)) w1"
    by (simp add: safe_attr_def)
  also from none have "\<dots> = (PNone,
               results @ [mk_result (owner_name @ ''.'' @ attr) ''SKIP''
                 ''attribute not exposed by this client/service build''],
               w1)"
    by (rule safe_attr_names_none)
  finally show "safe_attr rm results owner_name obj attr aliases w
            = (PNone,
               results @ [mk_result (owner_name @ ''.'' @ attr) ''SKIP''
                 ''attribute not exposed by this client/service build''],
               w1)" .
next
  fix ex w1
  assume "py_dir rm obj w = (Raises ex, w1)"
  then show "safe_attr rm results owner_name obj attr aliases w
            = (PNone,
               results @ [mk_result (owner_name @ ''.'' @ attr) ''FAIL''
                 (''cannot inspect attributes: '' @ ex)],
               w1)"
    by (simp add: safe_attr_def)
qed

text \<open>
  The scenarios of the witness: the canonical name is not exposed and the alias is; no
  listed name is exposed; the member set cannot be listed.
\<close>

theorem safe_attr_resolution_witness:
  "safe_attr alias_remote [] ''op.x.time_selector'' (PRef 7) ''time_reference''
       (Some [''current_time_reference'']) 0
     = (PStr ''UT'',
        [mk_result ''op.x.time_selector.current_time_reference'' ''PASS'' [CHR 0x27, CHR ''U'', CHR ''T'', CHR 0x27]], 0)
   \<and> safe_attr alias_remote [] ''smart_ass'' (PRef 7) ''force_roll'' None 0
     = (PNone,
        [mk_result ''smart_ass.force_roll'' ''SKIP''
           ''attribute not exposed by this client/service build''], 0)
   \<and> safe_attr broken_remote [] ''smart_ass'' (PRef 7) ''force_roll'' None 0
     = (PNone,
        [mk_result ''smart_ass.force_roll'' ''FAIL''
           ''cannot inspect attributes: connection reset''], 0)"
proof -
  let ?exposed = "[''allowed_time_references'', ''current_time_reference'']"
  have d: "py_dir alias_remote (PRef 7) 0 = (Returns ?exposed, 0)"
    by (simp add: alias_remote_def base_remote_def)
  have b: "py_dir broken_remote (PRef 7) 0 = (Raises ''connection reset'', 0)"
    by (simp add: broken_remote_def base_remote_def)
  have n: "''time_reference''
             # (case Some [''current_time_reference''] of None \<Rightarrow> [] | Some al \<Rightarrow> al)
           = [''time_reference''] @ ''current_time_reference'' # []"
    by simp
  have m: "''current_time_reference'' \<in> set ?exposed"
    by simp
  have p: "\<forall>n \<in> set [''time_reference'']. n \<notin> set ?exposed"
    by simp
  have q: "\<forall>n \<in> set (''force_roll'' # (case None of None \<Rightarrow> [] | Some al \<Rightarrow> al)).
             n \<notin> set ?exposed"
    by simp
  have g: "safe_read alias_remote [] ''op.x.time_selector.current_time_reference''
             (py_getattr alias_remote (PRef 7) ''current_time_reference'') 0
           = (PStr ''UT'',
              [mk_result ''op.x.time_selector.current_time_reference'' ''PASS'' [CHR 0x27, CHR ''U'', CHR ''T'', CHR 0x27]], 0)"
    by (simp add: safe_read_def alias_remote_def base_remote_def scenario_repr_def)
  from safe_attr_resolution [of alias_remote "PRef 7" 0 "''time_reference''"
      "Some [''current_time_reference'']" "[]" "''op.x.time_selector''"] d n m p
  have "safe_attr alias_remote [] ''op.x.time_selector'' (PRef 7) ''time_reference''
       (Some [''current_time_reference'']) 0
     = safe_read alias_remote [] (''op.x.time_selector'' @ ''.'' @ ''current_time_reference'')
             (py_getattr alias_remote (PRef 7) ''current_time_reference'') 0"
    by blast
  with g have one: "safe_attr alias_remote [] ''op.x.time_selector'' (PRef 7) ''time_reference''
       (Some [''current_time_reference'']) 0
     = (PStr ''UT'',
        [mk_result ''op.x.time_selector.current_time_reference'' ''PASS'' [CHR 0x27, CHR ''U'', CHR ''T'', CHR 0x27]], 0)"
    by simp
  from safe_attr_resolution [of alias_remote "PRef 7" 0 "''force_roll''" None "[]" "''smart_ass''"]
    d q
  have two: "safe_attr alias_remote [] ''smart_ass'' (PRef 7) ''force_roll'' None 0
     = (PNone,
        [mk_result ''smart_ass.force_roll'' ''SKIP''
           ''attribute not exposed by this client/service build''], 0)"
    by simp
  from safe_attr_resolution [of broken_remote "PRef 7" 0 "''force_roll''" None "[]" "''smart_ass''"]
    b
  have three: "safe_attr broken_remote [] ''smart_ass'' (PRef 7) ''force_roll'' None 0
     = (PNone,
        [mk_result ''smart_ass.force_roll'' ''FAIL''
           ''cannot inspect attributes: connection reset''], 0)"
    by simp
  from one two three show ?thesis by simp
qed

subsection \<open>What each probe function appends\<close>

lemma safe_read_appends:
  "safe_read rm results nm fn w = (v, r, w') \<Longrightarrow> \<exists>x. r = results @ [x] \<and> name x = nm"
  by (auto simp: safe_read_def mk_result_def Let_def split: prod.splits outcome.splits)

lemma safe_attr_names_appends:
  "safe_attr_names rm results owner_name obj attr exposed names w = (v, r, w')
    \<Longrightarrow> \<exists>x. r = results @ [x]"
  by (induction names) (auto split: if_splits dest: safe_read_appends)

lemma safe_attr_appends:
  "safe_attr rm results owner_name obj attr aliases w = (v, r, w') \<Longrightarrow> \<exists>x. r = results @ [x]"
  by (auto simp: safe_attr_def simp del: safe_attr_names.simps
        split: prod.splits outcome.splits dest: safe_attr_names_appends)

lemma probe_props_appends:
  "probe_props rm results module_name modl props w = (r, w')
    \<Longrightarrow> \<exists>new. r = results @ new \<and> length new = length props"
proof (induction props arbitrary: results w)
  case Nil
  then show ?case by simp
next
  case (Cons p ps)
  obtain v r1 w1 where a: "safe_attr rm results module_name modl p None w = (v, r1, w1)"
    by (cases "safe_attr rm results module_name modl p None w") auto
  then obtain x where x: "r1 = results @ [x]"
    by (auto dest: safe_attr_appends)
  from Cons.prems a have "probe_props rm r1 module_name modl ps w1 = (r, w')"
    by simp
  then obtain new where "r = r1 @ new" "length new = length ps"
    using Cons.IH by blast
  with x show ?case by simp
qed

lemma probe_modules_loop_append:
  "probe_modules_loop rm mj results (xs @ ys) w
    = (case probe_modules_loop rm mj results xs w of
         (r, w') \<Rightarrow> probe_modules_loop rm mj r ys w')"
  by (induction xs arbitrary: results w) (auto split: prod.splits)

subsection \<open>An absent module\<close>

text \<open>
  C9. In the walk over the catalog, the fetch of an entry appends one result named
  \<open>module.<name>\<close>. When the fetch gives \<open>None\<close> the entry is over: the walk goes
  on with the next entry from that ledger and that remote state. The results that
  follow the fetch within the entry are as many as the entry has members when the
  fetch gave an object, and none otherwise.
\<close>

theorem absent_module_skipped:
  assumes "probe_modules_loop rm mj results pre w = (r1, w1)"
      and "safe_read rm r1 (''module.'' @ module_name) (py_getattr rm mj module_name) w1
             = (modl, r2, w2)"
  shows "(\<exists>x. r2 = r1 @ [x] \<and> name x = ''module.'' @ module_name)
       \<and> (modl = PNone \<longrightarrow>
            probe_module rm mj r1 (module_name, props) w1 = (r2, w2)
            \<and> probe_modules_loop rm mj results (pre @ (module_name, props) # post) w
                = probe_modules_loop rm mj r2 post w2)
       \<and> (\<exists>new w3. probe_module rm mj r1 (module_name, props) w1 = (r2 @ new, w3)
            \<and> length new = (if modl = PNone then 0 else length props))"
proof (intro conjI impI)
  from assms(2) show "\<exists>x. r2 = r1 @ [x] \<and> name x = ''module.'' @ module_name"
    by (rule safe_read_appends)
next
  assume absent: "modl = PNone"
  with assms(2) show entry: "probe_module rm mj r1 (module_name, props) w1 = (r2, w2)"
    by (simp add: probe_module_def)
  with assms(1)
  show "probe_modules_loop rm mj results (pre @ (module_name, props) # post) w
          = probe_modules_loop rm mj r2 post w2"
    by (simp add: probe_modules_loop_append)
next
  show "\<exists>new w3. probe_module rm mj r1 (module_name, props) w1 = (r2 @ new, w3)
          \<and> length new = (if modl = PNone then 0 else length props)"
  proof (cases "modl = PNone")
    case True
    with assms(2) have "probe_module rm mj r1 (module_name, props) w1 = (r2 @ [], w2)"
      by (simp add: probe_module_def)
    with True show ?thesis by auto
  next
    case False
    obtain r3 w3 where p: "probe_props rm r2 module_name modl props w2 = (r3, w3)"
      by (cases "probe_props rm r2 module_name modl props w2") auto
    then obtain new where "r3 = r2 @ new" "length new = length props"
      by (auto dest: probe_props_appends)
    moreover from False assms(2) p
    have "probe_module rm mj r1 (module_name, props) w1 = (r3, w3)"
      by (simp add: probe_module_def)
    ultimately show ?thesis using False by auto
  qed
qed

theorem absent_module_skipped_witness:
  "probe_modules_loop base_remote (PRef 1) []
       ([] @ (''smart_ass'', [''autopilot_mode'', ''force_roll'']) # [(''smart_rcs'', [])]) 0
     = probe_modules_loop base_remote (PRef 1)
         [mk_result ''module.smart_ass'' ''FAIL'' ''AttributeError: smart_ass'']
         [(''smart_rcs'', [])] 0
   \<and> probe_module base_remote (PRef 1) []
         (''smart_ass'', [''autopilot_mode'', ''force_roll'']) 0
     = ([mk_result ''module.smart_ass'' ''FAIL'' ''AttributeError: smart_ass''], 0)"
proof -
  have nc: "\<not> has_crash_marker ''AttributeError: smart_ass''"
    by code_simp
  have a: "probe_modules_loop base_remote (PRef 1) [] [] 0 = ([], 0)"
    by simp
  from nc have b: "safe_read base_remote [] (''module.'' @ ''smart_ass'')
             (py_getattr base_remote (PRef 1) ''smart_ass'') 0
           = (PNone, [mk_result ''module.smart_ass'' ''FAIL'' ''AttributeError: smart_ass''], 0)"
    by (simp add: safe_read_def base_remote_def)
  from absent_module_skipped [OF a b, of "[''autopilot_mode'', ''force_roll'']"
      "[(''smart_rcs'', [])]"]
  show ?thesis by simp
qed

subsection \<open>A read that returns None\<close>

lemma safe_read_none:
  "fn w = (Returns PNone, w')
    \<Longrightarrow> safe_read rm results nm fn w
        = (PNone, results @ [mk_result nm ''PASS'' (py_repr rm PNone)], w')"
  by (simp add: safe_read_def)

lemma safe_read_raises:
  "fn w = (Raises msg, w')
    \<Longrightarrow> safe_read rm results nm fn w
        = (PNone,
           results @ [mk_result nm (if has_crash_marker msg then ''FAIL_CRASH'' else ''FAIL'') msg],
           w')"
  by (simp add: safe_read_def)

text \<open>
  C10. When the operation under \<open>safe_read\<close> returns \<open>None\<close>, the result appended is
  a \<open>PASS\<close> and the value returned is \<open>None\<close>, as after a raise. The callers then
  stop where they stop after a failed fetch: \<open>probe_basic_service\<close> returns
  \<open>None\<close> after the \<open>service.mech_jeb\<close> result, the walk over the modules and
  the walk over the operations go to the next entry, and \<open>probe_operations\<close> returns
  after the \<open>maneuver_planner\<close> result. In each case the only difference from the
  failed fetch is the recorded result.
\<close>

theorem none_value_passes_and_skips:
  "(fn w = (Returns PNone, w') \<longrightarrow>
      safe_read rm results nm fn w
        = (PNone, results @ [mk_result nm ''PASS'' (py_repr rm PNone)], w'))
   \<and> (\<forall>v r1 w1 out.
        safe_read rm results ''krpc.version'' (krpc_version rm) w = (v, r1, w1)
        \<longrightarrow> mech_jeb rm w1 = (out, w')
        \<longrightarrow> out = Returns PNone \<or> (\<exists>msg. out = Raises msg)
        \<longrightarrow> (\<exists>x. probe_basic_service rm results w = (PNone, r1 @ [x], w')
                \<and> name x = ''service.mech_jeb''
                \<and> (out = Returns PNone \<longrightarrow> status x = ''PASS'')))
   \<and> (\<forall>out. py_getattr rm mj module_name w = (out, w')
        \<longrightarrow> out = Returns PNone \<or> (\<exists>msg. out = Raises msg)
        \<longrightarrow> (\<exists>x. probe_module rm mj results (module_name, props) w = (results @ [x], w')
                \<and> name x = ''module.'' @ module_name
                \<and> (out = Returns PNone \<longrightarrow> status x = ''PASS'')))
   \<and> (\<forall>out. py_getattr rm planner op_name w = (out, w')
        \<longrightarrow> out = Returns PNone \<or> (\<exists>msg. out = Raises msg)
        \<longrightarrow> (\<exists>x. probe_operation rm planner results make_nodes op_name w
                    = (results @ [x], w')
                \<and> name x = ''op.'' @ op_name
                \<and> (out = Returns PNone \<longrightarrow> status x = ''PASS'')))
   \<and> (\<forall>out. py_getattr rm mj ''maneuver_planner'' w = (out, w')
        \<longrightarrow> out = Returns PNone \<or> (\<exists>msg. out = Raises msg)
        \<longrightarrow> (\<exists>x. probe_operations rm mj results make_nodes w = (results @ [x], w')
                \<and> name x = ''maneuver_planner''
                \<and> (out = Returns PNone \<longrightarrow> status x = ''PASS'')))"
proof (intro conjI allI impI)
  assume "fn w = (Returns PNone, w')"
  then show "safe_read rm results nm fn w
        = (PNone, results @ [mk_result nm ''PASS'' (py_repr rm PNone)], w')"
    by (rule safe_read_none)
next
  fix v r1 w1 out
  assume "safe_read rm results ''krpc.version'' (krpc_version rm) w = (v, r1, w1)"
    and "mech_jeb rm w1 = (out, w')"
    and "out = Returns PNone \<or> (\<exists>msg. out = Raises msg)"
  then show "\<exists>x. probe_basic_service rm results w = (PNone, r1 @ [x], w')
                \<and> name x = ''service.mech_jeb''
                \<and> (out = Returns PNone \<longrightarrow> status x = ''PASS'')"
    by (auto simp: probe_basic_service_def safe_read_none safe_read_raises mk_result_def)
next
  fix out
  assume "py_getattr rm mj module_name w = (out, w')"
    and "out = Returns PNone \<or> (\<exists>msg. out = Raises msg)"
  then show "\<exists>x. probe_module rm mj results (module_name, props) w = (results @ [x], w')
                \<and> name x = ''module.'' @ module_name
                \<and> (out = Returns PNone \<longrightarrow> status x = ''PASS'')"
    by (auto simp: probe_module_def safe_read_none safe_read_raises mk_result_def)
next
  fix out
  assume "py_getattr rm planner op_name w = (out, w')"
    and "out = Returns PNone \<or> (\<exists>msg. out = Raises msg)"
  then show "\<exists>x. probe_operation rm planner results make_nodes op_name w
                    = (results @ [x], w')
                \<and> name x = ''op.'' @ op_name
                \<and> (out = Returns PNone \<longrightarrow> status x = ''PASS'')"
    by (auto simp: probe_operation_def safe_read_none safe_read_raises mk_result_def)
next
  fix out
  assume "py_getattr rm mj ''maneuver_planner'' w = (out, w')"
    and "out = Returns PNone \<or> (\<exists>msg. out = Raises msg)"
  then show "\<exists>x. probe_operations rm mj results make_nodes w = (results @ [x], w')
                \<and> name x = ''maneuver_planner''
                \<and> (out = Returns PNone \<longrightarrow> status x = ''PASS'')"
    by (auto simp: probe_operations_def safe_read_none safe_read_raises mk_result_def)
qed

theorem none_value_passes_and_skips_witness:
  "probe_basic_service none_remote [] 0
     = (PNone,
        [mk_result ''krpc.version'' ''PASS'' [CHR 0x27, CHR ''0'', CHR ''.'', CHR ''5'', CHR ''.'', CHR ''4'', CHR 0x27],
         mk_result ''service.mech_jeb'' ''PASS'' ''None''], 0)
   \<and> probe_module none_remote (PRef 1) [] (''smart_ass'', [''force_roll'']) 0
     = ([mk_result ''module.smart_ass'' ''PASS'' ''None''], 0)
   \<and> probe_operation none_remote (PRef 3) [] True ''operation_plane'' 0
     = ([mk_result ''op.operation_plane'' ''PASS'' ''None''], 0)
   \<and> probe_operations none_remote (PRef 1) [] True 0
     = ([mk_result ''maneuver_planner'' ''PASS'' ''None''], 0)"
proof -
  have v: "safe_read none_remote [] ''krpc.version'' (krpc_version none_remote) 0
            = (PStr ''0.5.4'',
               [mk_result ''krpc.version'' ''PASS'' [CHR 0x27, CHR ''0'', CHR ''.'', CHR ''5'', CHR ''.'', CHR ''4'', CHR 0x27]], 0)"
    by (simp add: safe_read_def none_remote_def base_remote_def scenario_repr_def)
  have m: "mech_jeb none_remote 0 = (Returns PNone, 0)"
    by (simp add: none_remote_def base_remote_def)
  have g: "\<And>obj attr. py_getattr none_remote obj attr 0 = (Returns PNone, 0)"
    by (simp add: none_remote_def base_remote_def)
  have r: "py_repr none_remote PNone = ''None''"
    by (simp add: none_remote_def base_remote_def scenario_repr_def)
  note t = none_value_passes_and_skips [where rm = none_remote and results = "[]" and w = 0
      and w' = 0 and mj = "PRef 1" and planner = "PRef 3" and make_nodes = True
      and fn = "returning PNone" and nm = "''x''"]
  from t v m obtain x where x: "probe_basic_service none_remote [] 0
      = (PNone, [mk_result ''krpc.version'' ''PASS'' [CHR 0x27, CHR ''0'', CHR ''.'', CHR ''5'', CHR ''.'', CHR ''4'', CHR 0x27]] @ [x], 0)"
    by blast
  have one: "probe_basic_service none_remote [] 0
     = (PNone,
        [mk_result ''krpc.version'' ''PASS'' [CHR 0x27, CHR ''0'', CHR ''.'', CHR ''5'', CHR ''.'', CHR ''4'', CHR 0x27],
         mk_result ''service.mech_jeb'' ''PASS'' ''None''], 0)"
    using x v m r by (simp add: probe_basic_service_def safe_read_def)
  have two: "probe_module none_remote (PRef 1) [] (''smart_ass'', [''force_roll'']) 0
     = ([mk_result ''module.smart_ass'' ''PASS'' ''None''], 0)"
    using g r by (simp add: probe_module_def safe_read_def)
  have three: "probe_operation none_remote (PRef 3) [] True ''operation_plane'' 0
     = ([mk_result ''op.operation_plane'' ''PASS'' ''None''], 0)"
    using g r by (simp add: probe_operation_def safe_read_def)
  have four: "probe_operations none_remote (PRef 1) [] True 0
     = ([mk_result ''maneuver_planner'' ''PASS'' ''None''], 0)"
    using g r by (simp add: probe_operations_def safe_read_def)
  from one two three four show ?thesis by simp
qed

subsection \<open>The ledger only grows\<close>


lemma safe_attr_grows:
  "safe_attr rm results owner_name obj attr aliases w = (v, r, w') \<Longrightarrow> prefix results r"
  by (auto dest: safe_attr_appends)













lemma probes_returns: "\<exists>r w'. probes rm make_nodes results w = (Returns (), r, w')"
  by (auto simp: probes_def split: prod.splits)

subsection \<open>One result for each read, two for a service that is not ready\<close>




subsection \<open>A failure that escapes the probes\<close>

lemma main_completes:
  "\<exists>r w'. probes rm make_nodes [] w = (Returns (), r, w')
     \<and> main rm (Returns w) make_nodes
         = \<lparr>exit_code = fst (summarize r), printed = snd (summarize r),
            world_end = Some (conn_close rm w')\<rparr>"
proof -
  obtain r w' where p: "probes rm make_nodes [] w = (Returns (), r, w')"
    using probes_returns [of rm make_nodes "[]" w] by blast
  then have "main rm (Returns w) make_nodes
         = \<lparr>exit_code = fst (summarize r), printed = snd (summarize r),
            world_end = Some (conn_close rm w')\<rparr>"
    by (simp add: main_def main_try_def split: prod.splits)
  with p show ?thesis by blast
qed

text \<open>
  C5, as the code has it. When the block under \<open>try\<close> raises, the exit code is 3 and
  the connection is closed; standard output receives the one line
  \<open>[FAIL] unhandled exception during smoke test\<close> and \<open>summarize\<close> is not
  called, so the results collected so far are not printed.
\<close>

theorem unhandled_failure_exit:
  assumes "body [] w = (Raises ex, results, w1)"
  shows "exit_code (main_try rm body w) = 3
       \<and> printed (main_try rm body w) = [''[FAIL] unhandled exception during smoke test'']
       \<and> world_end (main_try rm body w) = Some (conn_close rm w1)"
  using assms by (simp add: main_try_def)

theorem unhandled_failure_exit_witness:
  "escaping_body [] 0 = (Raises ''KeyError'', [mk_result ''krpc.version'' ''PASS'' ''1''], 0)
   \<and> exit_code (main_try base_remote escaping_body 0) = 3
   \<and> printed (main_try base_remote escaping_body 0)
       = [''[FAIL] unhandled exception during smoke test'']
   \<and> world_end (main_try base_remote escaping_body 0) = Some 0"
proof -
  have b: "escaping_body [] 0
            = (Raises ''KeyError'', [mk_result ''krpc.version'' ''PASS'' ''1''], 0)"
    by (simp add: escaping_body_def)
  have c: "conn_close base_remote 0 = 0"
    by (simp add: base_remote_def)
  from unhandled_failure_exit [where body = escaping_body and w = 0 and rm = base_remote, OF b]
    b c
  show ?thesis
    by simp
qed

text \<open>
  The claim as written fails: one result was collected before the raise, and its line
  of the report is not among the lines printed.
\<close>

theorem report_not_printed_counterexample:
  "escaping_body [] 0 = (Raises ''KeyError'', [mk_result ''krpc.version'' ''PASS'' ''1''], 0)
   \<and> exit_code (main_try base_remote escaping_body 0) = 3
   \<and> report_line (mk_result ''krpc.version'' ''PASS'' ''1'') = ''[PASS] krpc.version: 1''
   \<and> ''[PASS] krpc.version: 1'' \<notin> set (printed (main_try base_remote escaping_body 0))"
  by (simp add: escaping_body_def main_try_def report_line_def mk_result_def)

subsection \<open>Node generation and cleanup\<close>

lemma remove_nodes_count:
  "remove_nodes rm nodes removed w = (Returns k, w') \<Longrightarrow> k = removed + length nodes"
proof (induction nodes arbitrary: removed w)
  case Nil
  then show ?case by simp
next
  case (Cons node nodes)
  obtain out w1 where n: "node_remove rm node w = (out, w1)"
    by (cases "node_remove rm node w") auto
  show ?case
  proof (cases out)
    case (Raises ex)
    with Cons.prems n show ?thesis by simp
  next
    case (Returns u)
    with Cons.prems n have "remove_nodes rm nodes (removed + 1) w1 = (Returns k, w')"
      by simp
    then have "k = removed + 1 + length nodes"
      by (rule Cons.IH)
    then show ?thesis by simp
  qed
qed

lemma expected_failure_no_cleanup:
  assumes "op_make_nodes rm op w = (Raises msg, w')"
      and "\<not> has_crash_marker msg" and "is_expected_operation_error msg"
  shows "probe_make_nodes rm results op_name op w
           = (results @ [mk_result (''op.'' @ op_name @ ''.make_nodes'') ''EXPECTED_FAIL'' msg],
              w')"
  using assms by (simp add: make_nodes_raises make_nodes_except_def)

lemma cleanup_recorded:
  assumes "op_make_nodes rm op w = (Returns made, w1)"
      and "active_vessel rm w1 = (Returns vessel, w2)"
      and "control_nodes rm vessel w2 = (Returns nodes, w3)"
      and "remove_nodes rm nodes 0 w3 = (Returns k, w4)"
  shows "probe_make_nodes rm results op_name op w
           = (results
                @ [mk_result (''op.'' @ op_name @ ''.make_nodes'') ''PASS''
                     (''nodes='' @ show_nat (length made)),
                   mk_result ''space_center.clear_nodes'' ''PASS''
                     (''removed='' @ show_nat (length nodes))],
              w4)"
proof -
  from assms(4) have "k = length nodes"
    by (auto dest: remove_nodes_count)
  with assms show ?thesis
    by (simp add: probe_make_nodes_def clear_nodes_def)
qed

lemma cleanup_recorded_example:
  "probe_make_nodes planning_remote [] ''operation_transfer'' (PRef 5) 0
     = ([mk_result ''op.operation_transfer.make_nodes'' ''PASS'' ''nodes=1'',
         mk_result ''space_center.clear_nodes'' ''PASS'' ''removed=1''], 0)"
proof -
  have "[10 ..< 11] = [10::nat]"
    by (simp add: upt_rec)
  moreover have "show_nat 1 = ''1''"
    by code_simp
  ultimately show ?thesis
    by (simp add: probe_make_nodes_def clear_nodes_def planning_remote_def base_remote_def)
qed

text \<open>
  C7 fails on the code where the cleanup raises. \<open>clear_nodes\<close> stands inside the
  \<open>try\<close> of the node generation, so a removal that raises is caught by the handler
  of \<open>make_nodes\<close>: after the \<open>PASS\<close> of the generation a second result under
  the name \<open>op.<name>.make_nodes\<close> is appended, here an \<open>EXPECTED_FAIL\<close> because
  the message contains \<open>cannot\<close>, and no result records the cleanup.
\<close>

theorem cleanup_failure_misfiled:
  "probe_make_nodes cleanup_fails_remote [] ''operation_transfer'' (PRef 5) 0
     = ([mk_result ''op.operation_transfer.make_nodes'' ''PASS'' ''nodes=1'',
         mk_result ''op.operation_transfer.make_nodes'' ''EXPECTED_FAIL''
           ''cannot remove node''], 1)"
proof -
  have "[10 ..< 11] = [10::nat]"
    by (simp add: upt_rec)
  moreover have "show_nat 1 = ''1''"
    by code_simp
  moreover have "\<not> has_crash_marker ''cannot remove node''"
    by code_simp
  moreover have "is_expected_operation_error ''cannot remove node''"
    by code_simp
  ultimately show ?thesis
    by (simp add: probe_make_nodes_def clear_nodes_def make_nodes_except_def
          cleanup_fails_remote_def base_remote_def)
qed

subsection \<open>The statuses of a run\<close>

lemma status_known_mk [simp]:
  "status_known (mk_result n s d)
    \<longleftrightarrow> s \<in> {''PASS'', ''FAIL'', ''FAIL_CRASH'', ''EXPECTED_FAIL'', ''SKIP''}"
  by (simp add: status_known_def mk_result_def)

lemma safe_read_known:
  "safe_read rm results nm fn w = (v, r, w') \<Longrightarrow> list_all status_known results
    \<Longrightarrow> list_all status_known r"
  by (auto simp: safe_read_def Let_def split: prod.splits outcome.splits)

lemma safe_attr_names_known:
  "safe_attr_names rm results owner_name obj attr exposed names w = (v, r, w')
    \<Longrightarrow> list_all status_known results \<Longrightarrow> list_all status_known r"
  by (induction names) (auto split: if_splits dest: safe_read_known)

lemma safe_attr_known:
  "safe_attr rm results owner_name obj attr aliases w = (v, r, w')
    \<Longrightarrow> list_all status_known results \<Longrightarrow> list_all status_known r"
  by (auto simp: safe_attr_def simp del: safe_attr_names.simps
        split: prod.splits outcome.splits dest: safe_attr_names_known)

lemma probe_props_known:
  "probe_props rm results module_name modl ps w = (r, w')
    \<Longrightarrow> list_all status_known results \<Longrightarrow> list_all status_known r"
proof (induction ps arbitrary: results w)
  case Nil
  then show ?case by simp
next
  case (Cons p ps)
  obtain v r1 w1 where a: "safe_attr rm results module_name modl p None w = (v, r1, w1)"
    by (cases "safe_attr rm results module_name modl p None w") auto
  with Cons.prems have "probe_props rm r1 module_name modl ps w1 = (r, w')"
    by simp
  moreover from a Cons.prems(2) have "list_all status_known r1"
    by (rule safe_attr_known)
  ultimately show ?case by (rule Cons.IH)
qed

lemma probe_module_known:
  "probe_module rm mj results entry w = (r, w')
    \<Longrightarrow> list_all status_known results \<Longrightarrow> list_all status_known r"
  by (cases entry)
     (auto simp: probe_module_def split: prod.splits if_splits
           dest: safe_read_known probe_props_known)

lemma probe_modules_loop_known:
  "probe_modules_loop rm mj results entries w = (r, w')
    \<Longrightarrow> list_all status_known results \<Longrightarrow> list_all status_known r"
proof (induction entries arbitrary: results w)
  case Nil
  then show ?case by simp
next
  case (Cons entry entries)
  obtain r1 w1 where e: "probe_module rm mj results entry w = (r1, w1)"
    by (cases "probe_module rm mj results entry w") auto
  with Cons.prems have "probe_modules_loop rm mj r1 entries w1 = (r, w')"
    by simp
  moreover from e Cons.prems(2) have "list_all status_known r1"
    by (rule probe_module_known)
  ultimately show ?case by (rule Cons.IH)
qed

lemma probe_check_known:
  "probe_check rm ascent results chk w = (r, w')
    \<Longrightarrow> list_all status_known results \<Longrightarrow> list_all status_known r"
  by (cases chk)
     (auto simp: probe_check_def split: prod.splits dest: safe_read_known)

lemma probe_checks_loop_known:
  "probe_checks_loop rm ascent results chks w = (r, w')
    \<Longrightarrow> list_all status_known results \<Longrightarrow> list_all status_known r"
proof (induction chks arbitrary: results w)
  case Nil
  then show ?case by simp
next
  case (Cons chk chks)
  obtain r1 w1 where e: "probe_check rm ascent results chk w = (r1, w1)"
    by (cases "probe_check rm ascent results chk w") auto
  with Cons.prems have "probe_checks_loop rm ascent r1 chks w1 = (r, w')"
    by simp
  moreover from e Cons.prems(2) have "list_all status_known r1"
    by (rule probe_check_known)
  ultimately show ?case by (rule Cons.IH)
qed

lemma probe_ascent_compat_known:
  "probe_ascent_compat rm mj results w = (r, w')
    \<Longrightarrow> list_all status_known results \<Longrightarrow> list_all status_known r"
  by (auto simp: probe_ascent_compat_def split: prod.splits if_splits
           dest: safe_read_known probe_checks_loop_known)

lemma clear_nodes_known:
  "clear_nodes rm results w = (u, r, w')
    \<Longrightarrow> list_all status_known results \<Longrightarrow> list_all status_known r"
  by (auto simp: clear_nodes_def split: prod.splits outcome.splits)

lemma make_nodes_except_known:
  "list_all status_known results
    \<Longrightarrow> list_all status_known (make_nodes_except results op_name msg)"
  by (simp add: make_nodes_except_def)

lemma probe_make_nodes_known:
  "probe_make_nodes rm results op_name op w = (r, w')
    \<Longrightarrow> list_all status_known results \<Longrightarrow> list_all status_known r"
  by (auto simp: probe_make_nodes_def Let_def split: prod.splits outcome.splits
           dest!: clear_nodes_known intro: make_nodes_except_known)

lemma probe_operation_known:
  "probe_operation rm planner results make_nodes op_name w = (r, w')
    \<Longrightarrow> list_all status_known results \<Longrightarrow> list_all status_known r"
  unfolding probe_operation_def
  by (auto split: prod.splits if_splits)
     (meson safe_read_known safe_attr_known probe_make_nodes_known)+

lemma probe_operations_loop_known:
  "probe_operations_loop rm planner results make_nodes ops w = (r, w')
    \<Longrightarrow> list_all status_known results \<Longrightarrow> list_all status_known r"
proof (induction ops arbitrary: results w)
  case Nil
  then show ?case by simp
next
  case (Cons op_name ops)
  obtain r1 w1 where e: "probe_operation rm planner results make_nodes op_name w = (r1, w1)"
    by (cases "probe_operation rm planner results make_nodes op_name w") auto
  with Cons.prems have "probe_operations_loop rm planner r1 make_nodes ops w1 = (r, w')"
    by simp
  moreover from e Cons.prems(2) have "list_all status_known r1"
    by (rule probe_operation_known)
  ultimately show ?case by (rule Cons.IH)
qed

lemma probe_operations_known:
  "probe_operations rm mj results make_nodes w = (r, w')
    \<Longrightarrow> list_all status_known results \<Longrightarrow> list_all status_known r"
  by (auto simp: probe_operations_def split: prod.splits if_splits
           dest: safe_read_known probe_operations_loop_known)

lemma probe_basic_service_known:
  "probe_basic_service rm results w = (mj, r, w')
    \<Longrightarrow> list_all status_known results \<Longrightarrow> list_all status_known r"
  unfolding probe_basic_service_def
  by (auto split: prod.splits if_splits) (meson safe_read_known)+

lemma probes_known:
  assumes "probes rm make_nodes results w = (u, r, w')" and "list_all status_known results"
  shows "list_all status_known r"
proof -
  obtain mj r1 w1 where b: "probe_basic_service rm results w = (mj, r1, w1)"
    by (cases "probe_basic_service rm results w") auto
  from b assms(2) have k1: "list_all status_known r1"
    by (rule probe_basic_service_known)
  show ?thesis
  proof (cases "mj = PNone")
    case True
    with assms(1) b k1 show ?thesis by (simp add: probes_def)
  next
    case False
    obtain r2 w2 where m: "probe_modules rm mj r1 w1 = (r2, w2)"
      by (cases "probe_modules rm mj r1 w1") auto
    obtain r3 w3 where a: "probe_ascent_compat rm mj r2 w2 = (r3, w3)"
      by (cases "probe_ascent_compat rm mj r2 w2") auto
    obtain r4 w4 where o: "probe_operations rm mj r3 make_nodes w3 = (r4, w4)"
      by (cases "probe_operations rm mj r3 make_nodes w3") auto
    from m k1 have "list_all status_known r2"
      by (auto simp: probe_modules_def dest: probe_modules_loop_known)
    with a have "list_all status_known r3"
      by (rule probe_ascent_compat_known)
    with o have "list_all status_known r4"
      by (rule probe_operations_known)
    moreover from assms(1) b False m a o have "r = r4"
      by (simp add: probes_def)
    ultimately show ?thesis by simp
  qed
qed

text \<open>
  The exit code of a run that connected: no probe function raises, every status of the
  ledger is one of the five, and the code is 1 exactly when a \<open>FAIL\<close> or a
  \<open>FAIL_CRASH\<close> was recorded.
\<close>

lemma main_exit_code:
  "\<exists>r w'. probes rm make_nodes [] w = (Returns (), r, w')
     \<and> list_all status_known r
     \<and> exit_code (main rm (Returns w) make_nodes)
         = (if \<exists>x \<in> set r. status x = ''FAIL'' \<or> status x = ''FAIL_CRASH'' then 1 else 0)"
proof -
  obtain r w' where p: "probes rm make_nodes [] w = (Returns (), r, w')"
    using probes_returns [of rm make_nodes "[]" w] by blast
  then have k: "list_all status_known r"
    by (rule probes_known) simp
  then have "\<forall>x \<in> set r. prefix ''FAIL'' (status x)
                \<longleftrightarrow> status x = ''FAIL'' \<or> status x = ''FAIL_CRASH''"
    by (auto simp: list_all_iff status_known_def)
  then have "fst (summarize r)
      = (if \<exists>x \<in> set r. status x = ''FAIL'' \<or> status x = ''FAIL_CRASH'' then 1 else 0)"
    by (simp add: summarize_code cong: bex_cong)
  with p have "exit_code (main rm (Returns w) make_nodes)
      = (if \<exists>x \<in> set r. status x = ''FAIL'' \<or> status x = ''FAIL_CRASH'' then 1 else 0)"
    by (cases "summarize r") (simp add: main_def main_try_def)
  with p k show ?thesis by blast
qed

end
